theory Spec2Isabelle
  imports Main
begin

unbundle bit_operations_syntax

section \<open>Python values used by parse_topology_tool.py\<close>

text \<open>
  Text is a list of characters; a character stands for a code point below 256.
  Exceptions are values: a function of the script that can raise returns
  \<open>py_error + 'a\<close>, with \<open>Inl\<close> for the exception that leaves it.
  A name that may be Python's \<open>None\<close> (a router whose configuration has no hostname
  line) is a \<open>string option\<close>.
\<close>

datatype py_error = AddressValueError | NetmaskValueError | ValueError | IndexError | KeyError

type_synonym node = "string option"

text \<open>\<open>str.isspace\<close> for one character below 256.\<close>

definition isspace :: "char \<Rightarrow> bool" where
  "isspace c = ((of_char c :: nat) \<in> {9, 10, 11, 12, 13, 28, 29, 30, 31, 32, 133, 160})"

text \<open>The ASCII decimal digits (\<open>s.isascii() and s.isdigit()\<close> holds when all are).\<close>

definition isdigit :: "char \<Rightarrow> bool" where
  "isdigit c = (48 \<le> (of_char c :: nat) \<and> (of_char c :: nat) \<le> 57)"

definition digit_val :: "char \<Rightarrow> int" where
  "digit_val c = of_char c - 48"

text \<open>\<open>line.strip()\<close>\<close>

definition py_strip :: "string \<Rightarrow> string" where
  "py_strip s = rev (dropWhile isspace (rev (dropWhile isspace s)))"

text \<open>\<open>line.startswith(p)\<close>\<close>

definition startswith :: "string \<Rightarrow> string \<Rightarrow> bool" where
  "startswith s p = (take (length p) s = p)"

text \<open>\<open>line.split()\<close>: the maximal runs of non-space characters, in order.\<close>

fun split_from :: "string \<Rightarrow> string \<Rightarrow> string list" where
  "split_from w [] = (if w = [] then [] else [w])"
| "split_from w (c # cs) =
     (if isspace c then (if w = [] then split_from [] cs else w # split_from [] cs)
      else split_from (w @ [c]) cs)"

definition py_split :: "string \<Rightarrow> string list" where
  "py_split s = split_from [] s"

text \<open>
  \<open>line.split(maxsplit=1)\<close>: the first word, and what follows the spaces after it
  (kept whole, when there is something).
\<close>

definition py_split_max1 :: "string \<Rightarrow> string list" where
  "py_split_max1 s =
     (let s1 = dropWhile isspace s;
          w = takeWhile (\<lambda>c. \<not> isspace c) s1;
          rest = dropWhile isspace (dropWhile (\<lambda>c. \<not> isspace c) s1)
      in if w = [] then [] else if rest = [] then [w] else [w, rest])"

text \<open>
  \<open>int(tok)\<close> on a token without spaces: an optional sign, then decimal digits, where
  single underscores may stand between digits. \<open>None\<close> is the \<open>ValueError\<close>, which
  the interpreter also raises for more than 4300 digits.
\<close>

fun int_digits :: "int \<Rightarrow> bool \<Rightarrow> string \<Rightarrow> int option" where
  "int_digits acc after_digit [] = (if after_digit then Some acc else None)"
| "int_digits acc after_digit (c # cs) =
     (if isdigit c then int_digits (acc * 10 + digit_val c) True cs
      else if c = CHR ''_'' \<and> after_digit then int_digits acc False cs
      else None)"

definition py_int :: "string \<Rightarrow> int option" where
  "py_int tok =
     (if length (filter isdigit tok) > 4300 then None
      else case tok of
        [] \<Rightarrow> None
      | c # cs \<Rightarrow>
          if c = CHR ''-'' then map_option uminus (int_digits 0 False cs)
          else if c = CHR ''+'' then int_digits 0 False cs
          else int_digits 0 False tok)"

text \<open>\<open>str(n)\<close> for a natural number.\<close>

fun str_nat :: "nat \<Rightarrow> string" where
  "str_nat n =
     (if n < 10 then [char_of (48 + n)]
      else str_nat (n div 10) @ [char_of (48 + n mod 10)])"

declare str_nat.simps [simp del]

text \<open>
  Iterating over a file opened in text mode: the lines of the text, each with its
  newline; \<open>\r\n\<close> and a lone \<open>\r\<close> end a line as \<open>\n\<close> does.
\<close>

fun lines_from :: "string \<Rightarrow> string \<Rightarrow> string list" where
  "lines_from cur [] = (if cur = [] then [] else [cur])"
| "lines_from cur (c # cs) =
     (if c = CHR 0x0A then (cur @ [CHR 0x0A]) # lines_from [] cs
      else if c = CHR 0x0D then
        (case cs of
           [] \<Rightarrow> [cur @ [CHR 0x0A]]
         | d # ds \<Rightarrow>
             if d = CHR 0x0A then (cur @ [CHR 0x0A]) # lines_from [] ds
             else (cur @ [CHR 0x0A]) # lines_from [] cs)
      else lines_from (cur @ [c]) cs)"

definition file_lines :: "string \<Rightarrow> string list" where
  "file_lines text = lines_from [] text"

section \<open>Step 1: parse_config\<close>

record iface =
  name :: string
  ip :: "string option"
  mask' :: "string option"
  bandwidth :: "int option"

record router =
  hostname :: "string option"
  interfaces :: "iface list"

text \<open>The loop's variables: the dictionary \<open>data\<close> and the open interface \<open>current\<close>.\<close>

record parse_state =
  data :: router
  current :: "iface option"

text \<open>The name an \<open>interface\<close> line opens its record with.\<close>

definition iface_name :: "string \<Rightarrow> string" where
  "iface_name line =
     (let parts = py_split_max1 line
      in if length parts = 2 then parts ! 1 else ''UNKNOWN'')"

definition new_iface :: "string \<Rightarrow> iface" where
  "new_iface n = \<lparr>name = n, ip = None, mask' = None, bandwidth = None\<rparr>"

text \<open>One turn of the loop \<open>for raw in f\<close>.\<close>

definition parse_line :: "parse_state \<Rightarrow> string \<Rightarrow> parse_state" where
  "parse_line st raw =
     (let line = py_strip raw in
      if line = [] then st
      else if startswith line ''hostname'' then
        (let parts = py_split line
         in if length parts \<ge> 2 then st\<lparr>data := (data st)\<lparr>hostname := Some (parts ! 1)\<rparr>\<rparr>
            else st)
      else if startswith line ''interface'' then
        (let d = (case current st of
                    Some c \<Rightarrow> (data st)\<lparr>interfaces := interfaces (data st) @ [c]\<rparr>
                  | None \<Rightarrow> data st)
         in \<lparr>data = d, current = Some (new_iface (iface_name line))\<rparr>)
      else if startswith line ''ip address'' \<and> current st \<noteq> None then
        (let parts = py_split line
         in if length parts \<ge> 4
            then st\<lparr>current := map_option (\<lambda>c. c\<lparr>ip := Some (parts ! 2), mask' := Some (parts ! 3)\<rparr>)
                                   (current st)\<rparr>
            else st)
      else if startswith line ''bandwidth'' \<and> current st \<noteq> None then
        (let parts = py_split line
         in if length parts \<ge> 2
            then (case py_int (parts ! 1) of
                    Some n \<Rightarrow> st\<lparr>current := map_option (\<lambda>c. c\<lparr>bandwidth := Some n\<rparr>) (current st)\<rparr>
                  | None \<Rightarrow> st)
            else st)
      else st)"

text \<open>
  \<open>parse_config\<close>, on the text of the file at \<open>file_path\<close> (opening and reading the
  file is outside the model).
\<close>

definition parse_config :: "string \<Rightarrow> router" where
  "parse_config text =
     (let st = foldl parse_line
                 \<lparr>data = \<lparr>hostname = None, interfaces = []\<rparr>, current = None\<rparr>
                 (file_lines text)
      in case current st of
           Some c \<Rightarrow> (data st)\<lparr>interfaces := interfaces (data st) @ [c]\<rparr>
         | None \<Rightarrow> data st)"

section \<open>The configuration block\<close>

text \<open>
  The constants at the head of the script (\<open>CONFIG -- adjust as you like\<close>) that the
  modelled functions read, as one value passed to them. \<open>APP_PROFILES\<close> is a
  dictionary whose order counts (\<open>list(APP_PROFILES.keys())\<close>): an association list.
\<close>

record profile =
  peak :: int
  avg :: int

record config =
  LOAD_MODE :: string
  TRAFFIC_MIN :: int
  TRAFFIC_MAX :: int
  FIXED_LOAD :: int
  RANDOM_SEED :: "int option"
  DEFAULT_ROUTER_IF_BW :: int
  DEFAULT_ENDPOINT_LINK_BW :: int
  ENDPOINTS_PER_LAN :: nat
  APP_PROFILES :: "(string \<times> profile) list"
  USE_PEAK :: bool

text \<open>The values the script ships with.\<close>

definition script_config :: config where
  "script_config =
     \<lparr>LOAD_MODE = ''apps'', TRAFFIC_MIN = 2000, TRAFFIC_MAX = 15000, FIXED_LOAD = 8000,
      RANDOM_SEED = None, DEFAULT_ROUTER_IF_BW = 10000, DEFAULT_ENDPOINT_LINK_BW = 1000,
      ENDPOINTS_PER_LAN = 2,
      APP_PROFILES =
        [(''Web Browsing'', \<lparr>peak = 2000, avg = 500\<rparr>),
         (''Video Streaming'', \<lparr>peak = 8000, avg = 5000\<rparr>),
         (''VoIP'', \<lparr>peak = 512, avg = 256\<rparr>),
         (''File Transfer'', \<lparr>peak = 9000, avg = 6000\<rparr>),
         (''Cloud Backup'', \<lparr>peak = 7000, avg = 4000\<rparr>)],
      USE_PEAK = True\<rparr>"

section \<open>The standard library's IPv4 networks\<close>

text \<open>
  \<open>ipaddress.IPv4Network(s, strict=False)\<close> belongs to Python's standard library, not
  to the script; this is what it does on a string, as far as the script can observe:
  the network (its address as a number, and its prefix length) or the
  exception. Two networks are equal (\<open>na == nb\<close>) when address and prefix length are.
  The library is the one of CPython 3.9.5 and later, where an octet written with a
  leading zero is refused.
\<close>

record ipv4network =
  network_address :: int
  prefixlen :: nat

text \<open>\<open>s.split(sep)\<close> for a one-character separator.\<close>

fun split_on :: "char \<Rightarrow> string \<Rightarrow> string \<Rightarrow> string list" where
  "split_on sep w [] = [w]"
| "split_on sep w (c # cs) =
     (if c = sep then w # split_on sep [] cs else split_on sep (w @ [c]) cs)"

definition py_split_char :: "char \<Rightarrow> string \<Rightarrow> string list" where
  "py_split_char sep s = split_on sep [] s"

text \<open>\<open>int(s)\<close> for a string of decimal digits.\<close>

definition digits_val :: "string \<Rightarrow> int" where
  "digits_val s = foldl (\<lambda>acc c. acc * 10 + digit_val c) 0 s"

text \<open>\<open>_parse_octet\<close>; \<open>None\<close> is its \<open>ValueError\<close>.\<close>

definition parse_octet :: "string \<Rightarrow> int option" where
  "parse_octet s =
     (if s = [] then None
      else if \<not> list_all isdigit s then None
      else if length s > 3 then None
      else if s \<noteq> ''0'' \<and> hd s = CHR ''0'' then None
      else if digits_val s > 255 then None
      else Some (digits_val s))"

text \<open>\<open>_ip_int_from_string\<close>; \<open>None\<close> is its \<open>AddressValueError\<close>.\<close>

definition ip_int_from_string :: "string \<Rightarrow> int option" where
  "ip_int_from_string s =
     (if s = [] then None
      else case map parse_octet (py_split_char (CHR ''.'') s) of
        [Some a, Some b, Some c, Some d] \<Rightarrow> Some (((a * 256 + b) * 256 + c) * 256 + d)
      | _ \<Rightarrow> None)"

text \<open>\<open>_prefix_from_prefix_string\<close>; \<open>None\<close> is its \<open>NetmaskValueError\<close>.\<close>

definition prefix_from_prefix_string :: "string \<Rightarrow> nat option" where
  "prefix_from_prefix_string s =
     (if s \<noteq> [] \<and> list_all isdigit s \<and> length s \<le> 4300 \<and> digits_val s \<le> 32
      then Some (nat (digits_val s)) else None)"

text \<open>\<open>_count_righthand_zero_bits(number, bits)\<close>\<close>

definition count_righthand_zero_bits :: "int \<Rightarrow> nat \<Rightarrow> nat" where
  "count_righthand_zero_bits number bits =
     (if number = 0 then bits
      else length (takeWhile (\<lambda>i. (number div 2 ^ i) mod 2 = 0) [0..<bits]))"

text \<open>\<open>_prefix_from_ip_int\<close>; \<open>None\<close> is its \<open>ValueError\<close> (zeroes and ones mixed).\<close>

definition prefix_from_ip_int :: "int \<Rightarrow> nat option" where
  "prefix_from_ip_int ip_int =
     (let trailing_zeroes = count_righthand_zero_bits ip_int 32;
          p = 32 - trailing_zeroes;
          leading_ones = ip_int div 2 ^ trailing_zeroes;
          all_ones = 2 ^ p - 1
      in if leading_ones \<noteq> all_ones then None else Some p)"

text \<open>
  \<open>_prefix_from_ip_string\<close>: a dotted netmask, or else a dotted hostmask (the bits
  inverted); \<open>None\<close> is its \<open>NetmaskValueError\<close>.
\<close>

definition prefix_from_ip_string :: "string \<Rightarrow> nat option" where
  "prefix_from_ip_string s =
     (case ip_int_from_string s of
        None \<Rightarrow> None
      | Some ip_int \<Rightarrow>
          (case prefix_from_ip_int ip_int of
             Some p \<Rightarrow> Some p
           | None \<Rightarrow> prefix_from_ip_int (ip_int XOR 4294967295)))"

text \<open>\<open>_make_netmask\<close> on a string: the prefix length.\<close>

definition make_netmask :: "string \<Rightarrow> nat option" where
  "make_netmask arg =
     (case prefix_from_prefix_string arg of
        Some p \<Rightarrow> Some p
      | None \<Rightarrow> prefix_from_ip_string arg)"

text \<open>\<open>_ip_int_from_prefix\<close>: the netmask of a prefix length.\<close>

definition ip_int_from_prefix :: "nat \<Rightarrow> int" where
  "ip_int_from_prefix p = 4294967295 XOR (drop_bit p 4294967295)"

definition IPv4Network :: "string \<Rightarrow> py_error + ipv4network" where
  "IPv4Network address =
     (case py_split_char (CHR ''/'') address of
        [addr] \<Rightarrow>
          (case ip_int_from_string addr of
             None \<Rightarrow> Inl AddressValueError
           | Some packed \<Rightarrow> Inr \<lparr>network_address = packed, prefixlen = 32\<rparr>)
      | [addr, m] \<Rightarrow>
          (case ip_int_from_string addr of
             None \<Rightarrow> Inl AddressValueError
           | Some packed \<Rightarrow>
               (case make_netmask m of
                  None \<Rightarrow> Inl NetmaskValueError
                | Some p \<Rightarrow>
                    Inr \<lparr>network_address = packed AND ip_int_from_prefix p, prefixlen = p\<rparr>))
      | _ \<Rightarrow> Inl AddressValueError)"

text \<open>\<open>str(net)\<close>: the dotted address, a slash, the prefix length.\<close>

definition str_ipv4network :: "ipv4network \<Rightarrow> string" where
  "str_ipv4network net =
     (let a = network_address net
      in str_nat (nat (a div 16777216 mod 256)) @ ''.'' @
         str_nat (nat (a div 65536 mod 256)) @ ''.'' @
         str_nat (nat (a div 256 mod 256)) @ ''.'' @
         str_nat (nat (a mod 256)) @ ''/'' @
         str_nat (prefixlen net))"

section \<open>Step 2: find_router_links\<close>

text \<open>A link \<open>(A, B, bw)\<close>.\<close>

type_synonym link = "node \<times> node \<times> int"

text \<open>
  \<open>x or y\<close> where \<open>x\<close> is a stored bandwidth (an integer or \<open>None\<close>) and \<open>y\<close> an
  integer: \<open>x\<close> when it is truthy, that is, present and not zero.
\<close>

definition py_or :: "int option \<Rightarrow> int \<Rightarrow> int" where
  "py_or x y = (case x of None \<Rightarrow> y | Some n \<Rightarrow> if n \<noteq> 0 then n else y)"

text \<open>
  The body shared by both loops over interfaces: nothing for an interface that fails
  the test \<open>iface["ip"] and iface["mask"]\<close>, and else what
  \<open>IPv4Network(f'{ip}/{mask}', strict=False)\<close> gives or raises.
\<close>

definition iface_net :: "iface \<Rightarrow> (py_error + ipv4network) option" where
  "iface_net i =
     (case (ip i, mask' i) of
        (Some a, Some m) \<Rightarrow>
          if a \<noteq> [] \<and> m \<noteq> [] then Some (IPv4Network (a @ ''/'' @ m)) else None
      | _ \<Rightarrow> None)"

text \<open>The helper list \<open>all_ifaces\<close>: the inner loop, then the loop over the routers.\<close>

fun router_ifaces :: "node \<Rightarrow> iface list \<Rightarrow> py_error + (node \<times> iface \<times> ipv4network) list" where
  "router_ifaces h [] = Inr []"
| "router_ifaces h (i # rest) =
     (case iface_net i of
        None \<Rightarrow> router_ifaces h rest
      | Some (Inl e) \<Rightarrow> Inl e
      | Some (Inr net) \<Rightarrow>
          (case router_ifaces h rest of
             Inl e \<Rightarrow> Inl e
           | Inr es \<Rightarrow> Inr ((h, i, net) # es)))"

fun all_ifaces :: "router list \<Rightarrow> py_error + (node \<times> iface \<times> ipv4network) list" where
  "all_ifaces [] = Inr []"
| "all_ifaces (r # rs) =
     (case router_ifaces (hostname r) (interfaces r) of
        Inl e \<Rightarrow> Inl e
      | Inr es \<Rightarrow>
          (case all_ifaces rs of
             Inl e \<Rightarrow> Inl e
           | Inr es' \<Rightarrow> Inr (es @ es')))"

text \<open>The loop over \<open>j\<close> for one \<open>i\<close>, and the loop over \<open>i\<close>.\<close>

fun links_with :: "config \<Rightarrow> node \<times> iface \<times> ipv4network \<Rightarrow>
    (node \<times> iface \<times> ipv4network) list \<Rightarrow> link list" where
  "links_with cfg (ra, ia, na) [] = []"
| "links_with cfg (ra, ia, na) ((rb, ib, nb) # rest) =
     (if na = nb
      then (ra, rb, py_or (bandwidth ia) (py_or (bandwidth ib) (DEFAULT_ROUTER_IF_BW cfg)))
             # links_with cfg (ra, ia, na) rest
      else links_with cfg (ra, ia, na) rest)"

fun match_links :: "config \<Rightarrow> (node \<times> iface \<times> ipv4network) list \<Rightarrow> link list" where
  "match_links cfg [] = []"
| "match_links cfg (e # es) = links_with cfg e es @ match_links cfg es"

definition find_router_links :: "config \<Rightarrow> router list \<Rightarrow> py_error + link list" where
  "find_router_links cfg routers =
     (case all_ifaces routers of
        Inl e \<Rightarrow> Inl e
      | Inr es \<Rightarrow> Inr (match_links cfg es))"

section \<open>Step 3: infer_access_lans\<close>

text \<open>An entry \<open>(routerName, ifaceName, ifaceBW)\<close> of \<open>net_map\<close>.\<close>

type_synonym attach = "node \<times> string \<times> int"

text \<open>
  \<open>net_map\<close> is a dictionary from \<open>str(net)\<close> to a list of entries, read back in
  insertion order by \<open>items()\<close>: an association list with one pair for each key, in the
  order the keys came.
\<close>

type_synonym net_map = "(string \<times> attach list) list"

text \<open>\<open>net_map.setdefault(k, []).append(v)\<close>\<close>

fun setdefault_append :: "net_map \<Rightarrow> string \<Rightarrow> attach \<Rightarrow> net_map" where
  "setdefault_append [] k v = [(k, [v])]"
| "setdefault_append ((k', vs) # rest) k v =
     (if k' = k then (k', vs @ [v]) # rest else (k', vs) # setdefault_append rest k v)"

text \<open>The loop over one router's interfaces, and the loop over the routers.\<close>

fun router_attaches :: "config \<Rightarrow> node \<Rightarrow> iface list \<Rightarrow> net_map \<Rightarrow> py_error + net_map" where
  "router_attaches cfg h [] nm = Inr nm"
| "router_attaches cfg h (i # rest) nm =
     (case iface_net i of
        None \<Rightarrow> router_attaches cfg h rest nm
      | Some (Inl e) \<Rightarrow> Inl e
      | Some (Inr net) \<Rightarrow>
          router_attaches cfg h rest
            (setdefault_append nm (str_ipv4network net)
               (h, name i, py_or (bandwidth i) (DEFAULT_ROUTER_IF_BW cfg))))"

fun build_net_map :: "config \<Rightarrow> router list \<Rightarrow> net_map \<Rightarrow> py_error + net_map" where
  "build_net_map cfg [] nm = Inr nm"
| "build_net_map cfg (r # rs) nm =
     (case router_attaches cfg (hostname r) (interfaces r) nm of
        Inl e \<Rightarrow> Inl e
      | Inr nm' \<Rightarrow> build_net_map cfg rs nm')"

text \<open>A switch \<open>{"name": ..., "router": ..., "lan_net": ...}\<close>.\<close>

record switch =
  name' :: string
  router' :: node
  lan_net :: string

text \<open>How an f-string prints a router name.\<close>

definition str_node :: "node \<Rightarrow> string" where
  "str_node h = (case h of None \<Rightarrow> ''None'' | Some s \<Rightarrow> s)"

text \<open>\<open>f"SW_{rname}_{iname.replace('/', '_')}"\<close>\<close>

definition switch_name :: "node \<Rightarrow> string \<Rightarrow> string" where
  "switch_name rname iname =
     ''SW_'' @ str_node rname @ ''_'' @ map (\<lambda>c. if c = CHR ''/'' then CHR ''_'' else c) iname"

text \<open>The names \<open>f"PC_{sw_name}_{idx}"\<close> for \<open>idx\<close> in \<open>range(1, ENDPOINTS_PER_LAN + 1)\<close>.\<close>

definition endpoint_names :: "config \<Rightarrow> string \<Rightarrow> string list" where
  "endpoint_names cfg sw =
     map (\<lambda>idx. ''PC_'' @ sw @ ''_'' @ str_nat idx) [1..<ENDPOINTS_PER_LAN cfg + 1]"

text \<open>
  The loop \<open>for net_str, attaches in net_map.items()\<close>, giving what it appends to
  \<open>switches\<close>, \<open>endpoints\<close> and \<open>access_links\<close>.
\<close>

fun lan_loop :: "config \<Rightarrow> net_map \<Rightarrow> switch list \<times> string list \<times> link list" where
  "lan_loop cfg [] = ([], [], [])"
| "lan_loop cfg ((net_str, attaches) # rest) =
     (case lan_loop cfg rest of
        (switches, endpoints, access_links) \<Rightarrow>
          (case attaches of
             [(rname, iname, rbw)] \<Rightarrow>
               (let sw = switch_name rname iname;
                    eps = endpoint_names cfg sw
                in (\<lparr>name' = sw, router' = rname, lan_net = net_str\<rparr> # switches,
                    eps @ endpoints,
                    (rname, Some sw, rbw) #
                      map (\<lambda>ep. (Some sw, Some ep, DEFAULT_ENDPOINT_LINK_BW cfg)) eps @
                      access_links))
           | _ \<Rightarrow> (switches, endpoints, access_links)))"

definition infer_access_lans ::
    "config \<Rightarrow> router list \<Rightarrow> py_error + switch list \<times> string list \<times> link list" where
  "infer_access_lans cfg routers =
     (case build_net_map cfg routers [] of
        Inl e \<Rightarrow> Inl e
      | Inr nm \<Rightarrow> Inr (lan_loop cfg nm))"

section \<open>Step 4: auto_assign_layers\<close>

text \<open>The dictionary \<open>layer\<close>, from node names to layer numbers.\<close>

type_synonym layer_map = "node \<rightharpoonup> nat"

text \<open>\<open>layer.setdefault(k, v)\<close>\<close>

definition setdefault :: "layer_map \<Rightarrow> node \<Rightarrow> nat \<Rightarrow> layer_map" where
  "setdefault layer k v = (if layer k = None then layer(k \<mapsto> v) else layer)"

text \<open>\<open>max(bws)\<close> and \<open>min(bws)\<close> of a list that is not empty.\<close>

fun py_max :: "int list \<Rightarrow> int" where
  "py_max [] = 0"
| "py_max (x # xs) = fold max xs x"

fun py_min :: "int list \<Rightarrow> int" where
  "py_min [] = 0"
| "py_min (x # xs) = fold min xs x"

text \<open>The loop of the special case (all bandwidths equal), one turn.\<close>

definition equal_step :: "node \<Rightarrow> layer_map \<Rightarrow> link \<Rightarrow> layer_map" where
  "equal_step core layer l =
     (case l of (a, b, bw) \<Rightarrow>
        (let layer1 = (if a \<noteq> core then setdefault layer a 1 else layer)
         in if b \<noteq> core then setdefault layer1 b 1 else layer1))"

text \<open>The three loops of the general case, one turn of each.\<close>

definition core_step :: "int \<Rightarrow> layer_map \<Rightarrow> link \<Rightarrow> layer_map" where
  "core_step max_bw layer l =
     (case l of (a, b, bw) \<Rightarrow> if bw = max_bw then layer(a \<mapsto> 0, b \<mapsto> 0) else layer)"

definition dist_step :: "layer_map \<Rightarrow> link \<Rightarrow> layer_map" where
  "dist_step layer l =
     (case l of (a, b, bw) \<Rightarrow>
        (let layer1 = (if layer a = None \<and> layer b \<noteq> None then layer(a \<mapsto> 1) else layer)
         in if layer1 b = None \<and> layer1 a \<noteq> None then layer1(b \<mapsto> 1) else layer1))"

definition straggler_step :: "layer_map \<Rightarrow> link \<Rightarrow> layer_map" where
  "straggler_step layer l =
     (case l of (a, b, bw) \<Rightarrow> setdefault (setdefault layer a 2) b 2)"

text \<open>The part under \<open>if router_links:\<close>.\<close>

definition router_layers :: "link list \<Rightarrow> layer_map" where
  "router_layers router_links =
     (case router_links of
        [] \<Rightarrow> Map.empty
      | (core, b0, bw0) # rest \<Rightarrow>
          (let bws = map (\<lambda>(a, b, bw). bw) router_links;
               max_bw = py_max bws;
               min_bw = py_min bws
           in if max_bw = min_bw
              then foldl (equal_step core) (Map.empty(core \<mapsto> 0)) router_links
              else foldl straggler_step
                     (foldl dist_step (foldl (core_step max_bw) Map.empty router_links)
                        router_links)
                     router_links))"

definition auto_assign_layers :: "link list \<Rightarrow> switch list \<Rightarrow> string list \<Rightarrow> layer_map" where
  "auto_assign_layers router_links switches endpoints =
     foldl (\<lambda>layer ep. layer(Some ep \<mapsto> 3))
       (foldl (\<lambda>layer sw. layer(Some (name' sw) \<mapsto> 2)) (router_layers router_links) switches)
       endpoints"

section \<open>Step 5: compute_load and annotate_links_with_load\<close>

text \<open>
  The module \<open>random\<close> belongs to the standard library. Its generator is a state of
  any type \<open>'g\<close>, with the three things the script makes it do: \<open>random.seed(n)\<close> gives
  a state that depends on \<open>n\<close> alone; \<open>_randbelow(n)\<close> draws a number; and
  \<open>random() * total\<close> draws a number of which only the integer part matters where it
  is compared with integer weights. Each draw gives the next state. How the numbers
  are drawn is left open: every statement below holds for every generator.
\<close>

record 'g random_source =
  seed :: "int \<Rightarrow> 'g"
  randbelow :: "nat \<Rightarrow> 'g \<Rightarrow> nat \<times> 'g"
  random_times :: "nat \<Rightarrow> 'g \<Rightarrow> nat \<times> 'g"

text \<open>\<open>random.randint(a, b)\<close>: \<open>ValueError\<close> for an empty range.\<close>

definition randint :: "'g random_source \<Rightarrow> int \<Rightarrow> int \<Rightarrow> 'g \<Rightarrow> py_error + int \<times> 'g" where
  "randint rs a b g =
     (if b + 1 - a > 0
      then (case randbelow rs (nat (b + 1 - a)) g of (k, g') \<Rightarrow> Inr (a + int k, g'))
      else Inl ValueError)"

text \<open>\<open>random.choice(seq)\<close>: \<open>IndexError\<close> for an empty sequence, or an index outside it.\<close>

definition choice :: "'g random_source \<Rightarrow> 'a list \<Rightarrow> 'g \<Rightarrow> py_error + 'a \<times> 'g" where
  "choice rs seq g =
     (if seq = [] then Inl IndexError
      else (case randbelow rs (length seq) g of
              (k, g') \<Rightarrow> if k < length seq then Inr (seq ! k, g') else Inl IndexError))"

text \<open>
  \<open>random.choices(population, weights, k=1)[0]\<close> for weights that are positive whole
  numbers, as both lists of the script are: the first element whose cumulative weight
  exceeds the draw, the last element at the latest (\<open>bisect\<close> with \<open>hi = n - 1\<close>).
\<close>

fun cum_weights :: "nat \<Rightarrow> nat list \<Rightarrow> nat list" where
  "cum_weights acc [] = []"
| "cum_weights acc (w # ws) = (acc + w) # cum_weights (acc + w) ws"

definition choices :: "'g random_source \<Rightarrow> 'a list \<Rightarrow> nat list \<Rightarrow> 'g \<Rightarrow> py_error + 'a \<times> 'g" where
  "choices rs population weights g =
     (let cum = cum_weights 0 weights; n = length population
      in if length cum \<noteq> n then Inl ValueError
         else if cum = [] then Inl IndexError
         else if last cum = 0 then Inl ValueError
         else (case random_times rs (last cum) g of
                 (x, g') \<Rightarrow>
                   Inr (population ! length (takeWhile (\<lambda>c. c \<le> x) (take (n - 1) cum)), g')))"

definition compute_load ::
    "config \<Rightarrow> 'g random_source \<Rightarrow> int \<Rightarrow> string option \<Rightarrow> 'g \<Rightarrow> py_error + int \<times> 'g" where
  "compute_load cfg rs bw app_choice g =
     (if LOAD_MODE cfg = ''fixed'' then Inr (FIXED_LOAD cfg, g)
      else if LOAD_MODE cfg = ''random'' then randint rs (TRAFFIC_MIN cfg) (TRAFFIC_MAX cfg) g
      else
        (case (case app_choice of
                 None \<Rightarrow> choice rs (map fst (APP_PROFILES cfg)) g
               | Some a \<Rightarrow> Inr (a, g)) of
           Inl e \<Rightarrow> Inl e
         | Inr (a, g') \<Rightarrow>
             (case map_of (APP_PROFILES cfg) a of
                None \<Rightarrow> Inl KeyError
              | Some p \<Rightarrow> Inr (if USE_PEAK cfg then peak p else avg p, g'))))"

text \<open>The choice of \<open>app\<close> at the head of the loop body.\<close>

definition pick_app ::
    "config \<Rightarrow> 'g random_source \<Rightarrow> bool \<Rightarrow> 'g \<Rightarrow> py_error + string option \<times> 'g" where
  "pick_app cfg rs is_access g =
     (if LOAD_MODE cfg = ''apps''
      then (case choices rs (map fst (APP_PROFILES cfg))
                   (if is_access then [4, 2, 4, 2, 1] else [2, 4, 1, 4, 3]) g of
              Inl e \<Rightarrow> Inl e
            | Inr (a, g') \<Rightarrow> Inr (Some a, g'))
      else Inr (None, g))"

text \<open>An annotated link \<open>(A, B, bw, load, overloaded, app)\<close>.\<close>

type_synonym annotated = "node \<times> node \<times> int \<times> int \<times> bool \<times> string option"

fun annotate_links_with_load ::
    "config \<Rightarrow> 'g random_source \<Rightarrow> link list \<Rightarrow> bool \<Rightarrow> 'g \<Rightarrow>
     py_error + annotated list \<times> 'g" where
  "annotate_links_with_load cfg rs [] is_access g = Inr ([], g)"
| "annotate_links_with_load cfg rs ((a, b, bw) # rest) is_access g =
     (case pick_app cfg rs is_access g of
        Inl e \<Rightarrow> Inl e
      | Inr (app, g1) \<Rightarrow>
          (case compute_load cfg rs bw app g1 of
             Inl e \<Rightarrow> Inl e
           | Inr (load, g2) \<Rightarrow>
               (case annotate_links_with_load cfg rs rest is_access g2 of
                  Inl e \<Rightarrow> Inl e
                | Inr (annotated, g3) \<Rightarrow>
                    Inr ((a, b, bw, load, bw > 0 \<and> load > bw, app) # annotated, g3))))"

section \<open>The main block: seeding and the two annotations\<close>

text \<open>
  The lines of the main block that touch the generator: \<open>random.seed(RANDOM_SEED)\<close>
  when a seed is set, then the annotation of the router links and of the access
  links. \<open>g0\<close> is the state the generator starts the run with.
\<close>

definition main_loads ::
    "config \<Rightarrow> 'g random_source \<Rightarrow> 'g \<Rightarrow> link list \<Rightarrow> link list \<Rightarrow>
     py_error + annotated list \<times> annotated list" where
  "main_loads cfg rs g0 rtr_links access_links =
     (let g = (case RANDOM_SEED cfg of None \<Rightarrow> g0 | Some n \<Rightarrow> seed rs n)
      in case annotate_links_with_load cfg rs rtr_links False g of
           Inl e \<Rightarrow> Inl e
         | Inr (rtr_links_annot, g1) \<Rightarrow>
             (case annotate_links_with_load cfg rs access_links True g1 of
                Inl e \<Rightarrow> Inl e
              | Inr (acc_links_annot, g2) \<Rightarrow> Inr (rtr_links_annot, acc_links_annot)))"

text \<open>
  A generator to run the model with: its state is a counter, a draw below \<open>n\<close> is the
  counter modulo \<open>n\<close>, and seeding sets the counter.
\<close>

definition counter_source :: "nat random_source" where
  "counter_source =
     \<lparr>seed = (\<lambda>n. nat \<bar>n\<bar>),
      randbelow = (\<lambda>n g. (g mod n, Suc g)),
      random_times = (\<lambda>n g. (g mod n, Suc g))\<rparr>"

section \<open>Notions used in the statements\<close>

text \<open>The records the loop has opened so far, closed or still open, oldest first.\<close>

definition opened :: "parse_state \<Rightarrow> iface list" where
  "opened st = interfaces (data st) @ (case current st of Some c \<Rightarrow> [c] | None \<Rightarrow> [])"

text \<open>An annotated link without its bandwidth and its overload flag.\<close>

definition load_view :: "annotated \<Rightarrow> node \<times> node \<times> int \<times> string option" where
  "load_view x = (case x of (a, b, bw, load, ov, app) \<Rightarrow> (a, b, load, app))"

text \<open>A router name appears in some link of the list.\<close>

definition touches :: "link list \<Rightarrow> node \<Rightarrow> bool" where
  "touches links x = list_ex (\<lambda>(a, b, bw). a = x \<or> b = x) links"

text \<open>
  The interfaces attached to the subnet \<open>k\<close> (the string of a network): those with
  both address and mask whose network prints as \<open>k\<close>, each as the entry the script
  keeps for it, in the order of the routers and of their interfaces.
\<close>

definition attaches_of :: "config \<Rightarrow> node \<Rightarrow> iface list \<Rightarrow> string \<Rightarrow> attach list" where
  "attaches_of cfg h ifs k =
     concat (map (\<lambda>i. case iface_net i of
                         Some (Inr net) \<Rightarrow>
                           if str_ipv4network net = k
                           then [(h, name i, py_or (bandwidth i) (DEFAULT_ROUTER_IF_BW cfg))]
                           else []
                       | _ \<Rightarrow> []) ifs)"

definition attached :: "config \<Rightarrow> router list \<Rightarrow> string \<Rightarrow> attach list" where
  "attached cfg routers k =
     concat (map (\<lambda>r. attaches_of cfg (hostname r) (interfaces r) k) routers)"

text \<open>The value \<open>net_map.get(k, [])\<close>.\<close>

definition entries :: "net_map \<Rightarrow> string \<Rightarrow> attach list" where
  "entries nm k = (case map_of nm k of None \<Rightarrow> [] | Some vs \<Rightarrow> vs)"

text \<open>The endpoints under a switch: the listed endpoints that a link joins to it.\<close>

definition endpoints_under :: "string \<Rightarrow> string list \<Rightarrow> link list \<Rightarrow> string set" where
  "endpoints_under sw endpoints access_links =
     set (filter (\<lambda>ep. list_ex (\<lambda>(a, b, bw). a = Some sw \<and> b = Some ep) access_links)
            endpoints)"

text \<open>What holds of \<open>net_map\<close> all along: each key once, and no empty list.\<close>

definition nm_inv :: "net_map \<Rightarrow> bool" where
  "nm_inv nm = (distinct (map fst nm) \<and> (\<forall>(k, vs) \<in> set nm. vs \<noteq> []))"

text \<open>The two routers of the specification's end-to-end example.\<close>

definition example_routers :: "router list" where
  "example_routers =
     [\<lparr>hostname = Some ''R1'',
       interfaces = [\<lparr>name = ''Fa0/0'', ip = Some ''10.0.0.1'', mask' = Some ''255.255.255.252'',
                      bandwidth = None\<rparr>,
                     \<lparr>name = ''Fa0/1'', ip = Some ''192.168.1.1'', mask' = Some ''255.255.255.0'',
                      bandwidth = None\<rparr>]\<rparr>,
      \<lparr>hostname = Some ''R2'',
       interfaces = [\<lparr>name = ''Fa0/0'', ip = Some ''10.0.0.2'', mask' = Some ''255.255.255.252'',
                      bandwidth = None\<rparr>,
                     \<lparr>name = ''Fa0/1'', ip = Some ''192.168.2.1'', mask' = Some ''255.255.255.0'',
                      bandwidth = None\<rparr>]\<rparr>]"

section \<open>Properties of parse_config\<close>

lemma startswith_interface_not_hostname:
  "startswith line ''interface'' \<Longrightarrow> \<not> startswith line ''hostname''"
  by (cases line) (auto simp: startswith_def)

lemma startswith_interface_nonempty: "startswith line ''interface'' \<Longrightarrow> line \<noteq> []"
  by (auto simp: startswith_def)

lemma opened_names_parse_line:
  "map name (opened (parse_line st raw)) =
     map name (opened st) @
       (if startswith (py_strip raw) ''interface'' then [iface_name (py_strip raw)] else [])"
proof (cases "startswith (py_strip raw) ''interface''")
  case True
  note nh = startswith_interface_not_hostname [OF True]
  note ne = startswith_interface_nonempty [OF True]
  show ?thesis
    using True nh ne
    by (cases "current st") (simp_all add: parse_line_def opened_def new_iface_def Let_def)
next
  case False
  then show ?thesis
    by (cases "current st")
       (auto simp: parse_line_def opened_def Let_def split: option.splits)
qed

lemma opened_names_foldl:
  "map name (opened (foldl parse_line st ls)) =
     map name (opened st) @
       map iface_name (filter (\<lambda>l. startswith l ''interface'') (map py_strip ls))"
proof (induction ls arbitrary: st)
  case Nil
  show ?case by simp
next
  case (Cons l ls)
  show ?case
    by (simp add: Cons.IH opened_names_parse_line)
qed

lemma interfaces_parse_config:
  "interfaces (parse_config text) =
     opened (foldl parse_line \<lparr>data = \<lparr>hostname = None, interfaces = []\<rparr>, current = None\<rparr>
               (file_lines text))"
  by (simp add: parse_config_def opened_def Let_def split: option.splits)

text \<open>
  Claim C7. Parsing keeps the order of the text: the output holds one record for each
  line that (stripped) starts with \<open>interface\<close>, the i-th record named by the i-th such
  line, the last one being the record still open at the end of the text.
\<close>

theorem parse_config_order_preserving:
  "map name (interfaces (parse_config text)) =
     map iface_name (filter (\<lambda>l. startswith l ''interface'') (map py_strip (file_lines text)))"
proof -
  have "map name (interfaces (parse_config text)) =
          map name (opened \<lparr>data = \<lparr>hostname = None, interfaces = []\<rparr>, current = None\<rparr>) @
            map iface_name
              (filter (\<lambda>l. startswith l ''interface'') (map py_strip (file_lines text)))"
    by (simp only: interfaces_parse_config opened_names_foldl)
  then show ?thesis by (simp add: opened_def)
qed


section \<open>Properties of the matching stage\<close>

lemma router_ifaces_raises:
  "i \<in> set ifs \<Longrightarrow> iface_net i = Some (Inl e) \<Longrightarrow> \<exists>e'. router_ifaces h ifs = Inl e'"
  by (induction ifs) (auto split: option.splits sum.splits)

lemma all_ifaces_raises:
  "r \<in> set routers \<Longrightarrow> i \<in> set (interfaces r) \<Longrightarrow> iface_net i = Some (Inl e) \<Longrightarrow>
   \<exists>e'. all_ifaces routers = Inl e'"
proof (induction routers)
  case Nil
  then show ?case by simp
next
  case (Cons r' routers)
  show ?case
  proof (cases "router_ifaces (hostname r') (interfaces r')")
    case (Inl e')
    then show ?thesis by simp
  next
    case (Inr es)
    with router_ifaces_raises [of i "interfaces r'" e "hostname r'"] Cons.prems
    have "r \<in> set routers" by auto
    with Cons.IH Cons.prems obtain e' where "all_ifaces routers = Inl e'" by blast
    with Inr show ?thesis by simp
  qed
qed

lemma router_attaches_raises:
  "i \<in> set ifs \<Longrightarrow> iface_net i = Some (Inl e) \<Longrightarrow> \<exists>e'. router_attaches cfg h ifs nm = Inl e'"
  by (induction ifs arbitrary: nm) (auto split: option.splits sum.splits)

lemma build_net_map_raises:
  "r \<in> set routers \<Longrightarrow> i \<in> set (interfaces r) \<Longrightarrow> iface_net i = Some (Inl e) \<Longrightarrow>
   \<exists>e'. build_net_map cfg routers nm = Inl e'"
proof (induction routers arbitrary: nm)
  case Nil
  then show ?case by simp
next
  case (Cons r' routers)
  show ?case
  proof (cases "router_attaches cfg (hostname r') (interfaces r') nm")
    case (Inl e')
    then show ?thesis by simp
  next
    case (Inr nm')
    with router_attaches_raises [of i "interfaces r'" e cfg "hostname r'" nm] Cons.prems
    have "r \<in> set routers" by auto
    with Cons.IH [of nm'] Cons.prems obtain e' where "build_net_map cfg routers nm' = Inl e'" by blast
    with Inr show ?thesis by simp
  qed
qed

text \<open>
  Claim C9. The matching stage does not skip an interface whose address and mask are
  both set but do not make a valid network: whenever a router of the list has such an
  interface, \<open>find_router_links\<close> and \<open>infer_access_lans\<close> both raise. The parser
  produces such interfaces, since it stores the tokens as they are.
\<close>

theorem invalid_network_raises:
  "r \<in> set routers \<Longrightarrow> i \<in> set (interfaces r) \<Longrightarrow> iface_net i = Some (Inl e) \<Longrightarrow>
   (\<exists>e'. find_router_links cfg routers = Inl e') \<and> (\<exists>e'. infer_access_lans cfg routers = Inl e')"
  using all_ifaces_raises [of r routers i e] build_net_map_raises [of r routers i e cfg "[]"]
  by (auto simp: find_router_links_def infer_access_lans_def)

lemma parse_foo_bar:
  "parse_config ''hostname R1\<newline>interface Fa0/0\<newline> ip address foo bar\<newline>'' =
   \<lparr>hostname = Some ''R1'',
    interfaces = [\<lparr>name = ''Fa0/0'', ip = Some ''foo'', mask' = Some ''bar'', bandwidth = None\<rparr>]\<rparr>"
  by code_simp

lemma iface_net_foo_bar:
  "iface_net \<lparr>name = ''Fa0/0'', ip = Some ''foo'', mask' = Some ''bar'', bandwidth = None\<rparr> =
   Some (Inl AddressValueError)"
  by code_simp

theorem invalid_network_raises_witness:
  "interfaces (parse_config ''hostname R1\<newline>interface Fa0/0\<newline> ip address foo bar\<newline>'') =
     [\<lparr>name = ''Fa0/0'', ip = Some ''foo'', mask' = Some ''bar'', bandwidth = None\<rparr>] \<and>
   iface_net \<lparr>name = ''Fa0/0'', ip = Some ''foo'', mask' = Some ''bar'', bandwidth = None\<rparr> =
     Some (Inl AddressValueError) \<and>
   (\<exists>e'. find_router_links script_config
           [parse_config ''hostname R1\<newline>interface Fa0/0\<newline> ip address foo bar\<newline>''] =
         Inl e') \<and>
   (\<exists>e'. infer_access_lans script_config
           [parse_config ''hostname R1\<newline>interface Fa0/0\<newline> ip address foo bar\<newline>''] =
         Inl e')"
  using invalid_network_raises [of
      "parse_config ''hostname R1\<newline>interface Fa0/0\<newline> ip address foo bar\<newline>''"
      "[parse_config ''hostname R1\<newline>interface Fa0/0\<newline> ip address foo bar\<newline>'']"
      "\<lparr>name = ''Fa0/0'', ip = Some ''foo'', mask' = Some ''bar'', bandwidth = None\<rparr>"
      AddressValueError script_config]
    iface_net_foo_bar
  by (simp add: parse_foo_bar)

text \<open>The exception that leaves both functions there is the address error.\<close>

lemma foo_bar_raises_address_error:
  "find_router_links script_config
     [\<lparr>hostname = Some ''R1'',
       interfaces = [\<lparr>name = ''Fa0/0'', ip = Some ''foo'', mask' = Some ''bar'', bandwidth = None\<rparr>]\<rparr>] =
     Inl AddressValueError \<and>
   infer_access_lans script_config
     [\<lparr>hostname = Some ''R1'',
       interfaces = [\<lparr>name = ''Fa0/0'', ip = Some ''foo'', mask' = Some ''bar'', bandwidth = None\<rparr>]\<rparr>] =
     Inl AddressValueError"
  by code_simp

lemma parse_RA:
  "parse_config
     ''hostname RA\<newline>interface Fa0/0\<newline> ip address 10.0.0.1 255.255.255.252\<newline> bandwidth 0\<newline>'' =
   \<lparr>hostname = Some ''RA'',
    interfaces = [\<lparr>name = ''Fa0/0'', ip = Some ''10.0.0.1'', mask' = Some ''255.255.255.252'',
                   bandwidth = Some 0\<rparr>]\<rparr>"
  by code_simp

lemma parse_RB:
  "parse_config
     ''hostname RB\<newline>interface Fa0/0\<newline> ip address 10.0.0.2 255.255.255.252\<newline> bandwidth 5000\<newline>'' =
   \<lparr>hostname = Some ''RB'',
    interfaces = [\<lparr>name = ''Fa0/0'', ip = Some ''10.0.0.2'', mask' = Some ''255.255.255.252'',
                   bandwidth = Some 5000\<rparr>]\<rparr>"
  by code_simp

text \<open>
  Claim C2, at a stored bandwidth of 0. The first router's interface has the line
  \<open>bandwidth 0\<close>, which the parser stores as the integer 0; the second has
  \<open>bandwidth 5000\<close>. The link between them gets the bandwidth 5000, not the stored 0
  of interface A: \<open>or\<close> passes over a 0 as it passes over \<open>None\<close>.
\<close>

theorem stored_zero_bandwidth_passed_over:
  "map bandwidth (interfaces (parse_config
     ''hostname RA\<newline>interface Fa0/0\<newline> ip address 10.0.0.1 255.255.255.252\<newline> bandwidth 0\<newline>'')) =
     [Some 0] \<and>
   find_router_links script_config
     [parse_config
        ''hostname RA\<newline>interface Fa0/0\<newline> ip address 10.0.0.1 255.255.255.252\<newline> bandwidth 0\<newline>'',
      parse_config
        ''hostname RB\<newline>interface Fa0/0\<newline> ip address 10.0.0.2 255.255.255.252\<newline> bandwidth 5000\<newline>''] =
     Inr [(Some ''RA'', Some ''RB'', 5000)]"
  unfolding parse_RA parse_RB by code_simp

section \<open>Properties of infer_access_lans\<close>

subsection \<open>Printed numbers and the names built from them\<close>

lemma str_nat_nonempty: "str_nat n \<noteq> []"
  by (subst str_nat.simps) simp

lemma str_nat_last: "last (str_nat n) = char_of (48 + n mod 10)"
  by (subst str_nat.simps) simp

lemma str_nat_butlast: "butlast (str_nat n) = (if n < 10 then [] else str_nat (n div 10))"
  by (subst str_nat.simps) simp

lemma digit_char_inj:
  assumes "char_of (48 + a mod 10 :: nat) = char_of (48 + b mod 10 :: nat)"
  shows "a mod 10 = b mod 10"
proof -
  have "of_char (char_of (48 + a mod 10 :: nat)) = (of_char (char_of (48 + b mod 10 :: nat)) :: nat)"
    using assms by simp
  moreover have "(48 + a mod 10) mod 256 = 48 + a mod 10" "(48 + b mod 10) mod 256 = 48 + b mod 10"
    by simp_all
  ultimately show ?thesis by (simp add: of_char_of)
qed

lemma str_nat_inj: "str_nat m = str_nat n \<Longrightarrow> m = n"
proof (induction m arbitrary: n rule: str_nat.induct)
  case (1 m)
  from "1.prems" have l: "m mod 10 = n mod 10"
    using str_nat_last [of m] str_nat_last [of n] digit_char_inj by simp
  from "1.prems" have b: "butlast (str_nat m) = butlast (str_nat n)" by simp
  show ?case
  proof (cases "m < 10")
    case True
    with b have "n < 10" using str_nat_nonempty [of "n div 10"] by (auto simp: str_nat_butlast split: if_splits)
    with True l show ?thesis by simp
  next
    case False
    with b have n: "\<not> n < 10" using str_nat_nonempty [of "m div 10"] by (auto simp: str_nat_butlast split: if_splits)
    with False b have "str_nat (m div 10) = str_nat (n div 10)" by (simp add: str_nat_butlast)
    with "1.IH" False have "m div 10 = n div 10" by simp
    with l show ?thesis by (metis div_mult_mod_eq)
  qed
qed

lemma endpoint_names_distinct: "distinct (endpoint_names cfg sw)"
  unfolding endpoint_names_def
  by (auto simp: distinct_map inj_on_def dest: str_nat_inj)

lemma endpoint_names_length: "length (endpoint_names cfg sw) = ENDPOINTS_PER_LAN cfg"
  by (simp add: endpoint_names_def)

lemma endpoint_names_card: "card (set (endpoint_names cfg sw)) = ENDPOINTS_PER_LAN cfg"
  by (simp add: distinct_card endpoint_names_distinct endpoint_names_length)

lemma endpoint_name_prefix: "ep \<in> set (endpoint_names cfg sw) \<Longrightarrow> take 3 ep = ''PC_''"
  by (auto simp: endpoint_names_def)

lemma switch_name_prefix: "take 3 (switch_name r i) = ''SW_''"
  by (simp add: switch_name_def)

subsection \<open>The dictionary of subnets\<close>

lemma setdefault_append_keys:
  "set (map fst (setdefault_append nm k v)) = insert k (set (map fst nm))"
proof (induction nm)
  case Nil
  show ?case by simp
next
  case (Cons p nm)
  obtain k' vs where p: "p = (k', vs)" by (cases p)
  show ?case using Cons.IH unfolding p by (cases "k' = k") auto
qed

lemma setdefault_append_map_of:
  "map_of (setdefault_append nm k v) k' =
     (if k' = k then Some (entries nm k @ [v]) else map_of nm k')"
proof (induction nm)
  case Nil
  show ?case by (simp add: entries_def)
next
  case (Cons p nm)
  obtain k'' vs where p: "p = (k'', vs)" by (cases p)
  show ?case using Cons.IH unfolding p by (cases "k'' = k") (auto simp: entries_def)
qed

lemma setdefault_append_distinct:
  "distinct (map fst nm) \<Longrightarrow> distinct (map fst (setdefault_append nm k v))"
proof (induction nm)
  case Nil
  then show ?case by simp
next
  case (Cons p nm)
  obtain k' vs where p: "p = (k', vs)" by (cases p)
  show ?case
  proof (cases "k' = k")
    case True
    with Cons.prems p show ?thesis by simp
  next
    case False
    have "k' \<notin> set (map fst (setdefault_append nm k v))"
      using Cons.prems p False by (simp add: setdefault_append_keys del: set_map)
    with Cons p False show ?thesis by simp
  qed
qed

lemma setdefault_append_nonempty:
  "\<forall>(k, vs) \<in> set nm. vs \<noteq> [] \<Longrightarrow> (k', vs') \<in> set (setdefault_append nm k v) \<Longrightarrow> vs' \<noteq> []"
proof (induction nm)
  case Nil
  then show ?case by auto
next
  case (Cons p nm)
  obtain k'' vs where p: "p = (k'', vs)" by (cases p)
  show ?case using Cons unfolding p by (cases "k'' = k") auto
qed

lemma setdefault_append_inv: "nm_inv nm \<Longrightarrow> nm_inv (setdefault_append nm k v)"
  unfolding nm_inv_def
  using setdefault_append_distinct [of nm k v] setdefault_append_nonempty [of nm _ _ k v]
  by blast

lemma setdefault_append_entries:
  "entries (setdefault_append nm k v) k' = entries nm k' @ (if k' = k then [v] else [])"
  by (simp add: entries_def setdefault_append_map_of)

lemma router_attaches_entries:
  "router_attaches cfg h ifs nm = Inr nm' \<Longrightarrow> nm_inv nm \<Longrightarrow>
   nm_inv nm' \<and> (\<forall>k. entries nm' k = entries nm k @ attaches_of cfg h ifs k)"
proof (induction ifs arbitrary: nm)
  case Nil
  then show ?case by (simp add: attaches_of_def)
next
  case (Cons i ifs)
  show ?case
  proof (cases "iface_net i")
    case None
    with Cons.prems have "router_attaches cfg h ifs nm = Inr nm'" by simp
    from Cons.IH [OF this Cons.prems(2)] None show ?thesis by (simp add: attaches_of_def)
  next
    case (Some res)
    show ?thesis
    proof (cases res)
      case (Inl e)
      with Some Cons.prems show ?thesis by simp
    next
      case (Inr net)
      let ?v = "(h, name i, py_or (bandwidth i) (DEFAULT_ROUTER_IF_BW cfg))"
      let ?nm1 = "setdefault_append nm (str_ipv4network net) ?v"
      from Cons.prems Some Inr have run: "router_attaches cfg h ifs ?nm1 = Inr nm'" by simp
      have inv1: "nm_inv ?nm1" using Cons.prems(2) by (rule setdefault_append_inv)
      from Cons.IH [OF run inv1] Some Inr show ?thesis
        by (simp add: attaches_of_def setdefault_append_entries)
    qed
  qed
qed

lemma build_net_map_entries:
  "build_net_map cfg routers nm = Inr nm' \<Longrightarrow> nm_inv nm \<Longrightarrow>
   nm_inv nm' \<and> (\<forall>k. entries nm' k = entries nm k @ attached cfg routers k)"
proof (induction routers arbitrary: nm)
  case Nil
  then show ?case by (simp add: attached_def)
next
  case (Cons r routers)
  from Cons.prems(1) obtain nm1 where
    r1: "router_attaches cfg (hostname r) (interfaces r) nm = Inr nm1"
    and r2: "build_net_map cfg routers nm1 = Inr nm'"
    by (auto split: sum.splits)
  from router_attaches_entries [OF r1 Cons.prems(2)]
  have inv1: "nm_inv nm1"
    and e1: "\<And>k. entries nm1 k = entries nm k @ attaches_of cfg (hostname r) (interfaces r) k"
    by auto
  from Cons.IH [OF r2 inv1] e1 show ?case by (simp add: attached_def)
qed

lemma build_net_map_attached:
  assumes "build_net_map cfg routers [] = Inr nm"
  shows "nm_inv nm" and "entries nm k = attached cfg routers k"
proof -
  have "nm_inv []" by (simp add: nm_inv_def)
  from build_net_map_entries [OF assms this] show "nm_inv nm" and "entries nm k = attached cfg routers k"
    by (simp_all add: entries_def)
qed

subsection \<open>The loop over the subnets\<close>

lemma lan_loop_single:
  "lan_loop cfg ((k, [(r, i, bw)]) # rest) =
     (\<lparr>name' = switch_name r i, router' = r, lan_net = k\<rparr> # fst (lan_loop cfg rest),
      endpoint_names cfg (switch_name r i) @ fst (snd (lan_loop cfg rest)),
      (r, Some (switch_name r i), bw) #
        map (\<lambda>ep. (Some (switch_name r i), Some ep, DEFAULT_ENDPOINT_LINK_BW cfg))
          (endpoint_names cfg (switch_name r i)) @
        snd (snd (lan_loop cfg rest)))"
  by (simp add: Let_def split: prod.splits)

lemma lan_loop_other:
  "length atts \<noteq> 1 \<Longrightarrow> lan_loop cfg ((k, atts) # rest) = lan_loop cfg rest"
  by (cases atts; cases "tl atts") (auto split: prod.splits)

declare lan_loop.simps(2) [simp del]

lemma single_attach: "length atts = 1 \<Longrightarrow> \<exists>r i bw. atts = [(r, i, bw)]"
  by (cases atts) auto

lemma lan_loop_switch_keys:
  "s \<in> set (fst (lan_loop cfg nm)) \<Longrightarrow> lan_net s \<in> set (map fst nm)"
proof (induction nm)
  case Nil
  then show ?case by simp
next
  case (Cons p nm)
  obtain k atts where p: "p = (k, atts)" by (cases p)
  show ?case
  proof (cases "length atts = 1")
    case True
    then obtain r i bw where "atts = [(r, i, bw)]" using single_attach by blast
    with Cons p show ?thesis by (auto simp: lan_loop_single)
  next
    case False
    with Cons p show ?thesis by (auto simp: lan_loop_other)
  qed
qed

lemma lan_loop_switches_for:
  "distinct (map fst nm) \<Longrightarrow>
   filter (\<lambda>s. lan_net s = k) (fst (lan_loop cfg nm)) =
     (if length (entries nm k) = 1
      then [\<lparr>name' = switch_name (fst (hd (entries nm k))) (fst (snd (hd (entries nm k)))),
             router' = fst (hd (entries nm k)), lan_net = k\<rparr>]
      else [])"
proof (induction nm)
  case Nil
  then show ?case by (simp add: entries_def)
next
  case (Cons p nm)
  obtain k' atts where p: "p = (k', atts)" by (cases p)
  from Cons.prems p have d: "distinct (map fst nm)" and nk: "k' \<notin> set (map fst nm)" by auto
  note IH = Cons.IH [OF d]
  show ?case
  proof (cases "k' = k")
    case True
    have none: "filter (\<lambda>s. lan_net s = k) (fst (lan_loop cfg nm)) = []"
      using lan_loop_switch_keys [of _ cfg nm] nk True by (auto simp: filter_empty_conv)
    have e: "entries (p # nm) k = atts" using p True by (simp add: entries_def)
    show ?thesis
    proof (cases "length atts = 1")
      case len: True
      then obtain r i bw where "atts = [(r, i, bw)]" using single_attach by blast
      with none e p True show ?thesis by (simp add: lan_loop_single)
    next
      case False
      with none e p show ?thesis by (simp add: lan_loop_other)
    qed
  next
    case False
    have e: "entries (p # nm) k = entries nm k" using p False by (simp add: entries_def)
    show ?thesis
    proof (cases "length atts = 1")
      case True
      then obtain r i bw where "atts = [(r, i, bw)]" using single_attach by blast
      with IH e p False show ?thesis by (simp add: lan_loop_single)
    next
      case len: False
      with IH e p show ?thesis by (simp add: lan_loop_other)
    qed
  qed
qed

lemma lan_loop_endpoints:
  "set (fst (snd (lan_loop cfg nm))) =
     (\<Union>s \<in> set (fst (lan_loop cfg nm)). set (endpoint_names cfg (name' s)))"
proof (induction nm)
  case Nil
  show ?case by simp
next
  case (Cons p nm)
  obtain k atts where p: "p = (k, atts)" by (cases p)
  show ?case
  proof (cases "length atts = 1")
    case True
    then obtain r i bw where "atts = [(r, i, bw)]" using single_attach by blast
    with Cons p show ?thesis by (simp add: lan_loop_single)
  next
    case False
    with Cons p show ?thesis by (simp add: lan_loop_other)
  qed
qed

lemma lan_loop_links_shape:
  "l \<in> set (snd (snd (lan_loop cfg nm))) \<Longrightarrow>
   (\<exists>r sw b. l = (r, Some sw, b) \<and> take 3 sw = ''SW_'') \<or>
   (\<exists>s \<in> set (fst (lan_loop cfg nm)). \<exists>ep \<in> set (endpoint_names cfg (name' s)).
      l = (Some (name' s), Some ep, DEFAULT_ENDPOINT_LINK_BW cfg))"
proof (induction nm)
  case Nil
  then show ?case by simp
next
  case (Cons p nm)
  obtain k atts where p: "p = (k, atts)" by (cases p)
  show ?case
  proof (cases "length atts = 1")
    case True
    then obtain r i bw where a: "atts = [(r, i, bw)]" using single_attach by blast
    from Cons.prems p a consider
      "l = (r, Some (switch_name r i), bw)"
      | "l \<in> (\<lambda>ep. (Some (switch_name r i), Some ep, DEFAULT_ENDPOINT_LINK_BW cfg)) `
              set (endpoint_names cfg (switch_name r i))"
      | "l \<in> set (snd (snd (lan_loop cfg nm)))"
      by (auto simp: lan_loop_single)
    then show ?thesis
    proof cases
      case 1
      then show ?thesis using switch_name_prefix by blast
    next
      case 2
      then show ?thesis unfolding p a by (auto simp: lan_loop_single)
    next
      case 3
      from Cons.IH [OF 3] show ?thesis unfolding p a by (auto simp: lan_loop_single)
    qed
  next
    case False
    with Cons p show ?thesis by (simp add: lan_loop_other)
  qed
qed

lemma lan_loop_links_present:
  "s \<in> set (fst (lan_loop cfg nm)) \<Longrightarrow> ep \<in> set (endpoint_names cfg (name' s)) \<Longrightarrow>
   (Some (name' s), Some ep, DEFAULT_ENDPOINT_LINK_BW cfg) \<in> set (snd (snd (lan_loop cfg nm)))"
proof (induction nm)
  case Nil
  then show ?case by simp
next
  case (Cons p nm)
  obtain k atts where p: "p = (k, atts)" by (cases p)
  show ?case
  proof (cases "length atts = 1")
    case True
    then obtain r i bw where a: "atts = [(r, i, bw)]" using single_attach by blast
    from Cons show ?thesis unfolding p a by (auto simp: lan_loop_single)
  next
    case False
    with Cons p show ?thesis by (simp add: lan_loop_other)
  qed
qed

lemma endpoints_under_switch:
  assumes "s \<in> set (fst (lan_loop cfg nm))"
  shows "endpoints_under (name' s) (fst (snd (lan_loop cfg nm))) (snd (snd (lan_loop cfg nm))) =
         set (endpoint_names cfg (name' s))"
proof (rule set_eqI, rule iffI)
  fix ep
  assume "ep \<in> endpoints_under (name' s) (fst (snd (lan_loop cfg nm))) (snd (snd (lan_loop cfg nm)))"
  then obtain bw where ep: "ep \<in> set (fst (snd (lan_loop cfg nm)))"
    and l: "(Some (name' s), Some ep, bw) \<in> set (snd (snd (lan_loop cfg nm)))"
    by (auto simp: endpoints_under_def list_ex_iff)
  from ep have pc: "take 3 ep = ''PC_''"
    using endpoint_name_prefix by (auto simp: lan_loop_endpoints)
  from lan_loop_links_shape [OF l] show "ep \<in> set (endpoint_names cfg (name' s))"
  proof
    assume "\<exists>r sw b. (Some (name' s), Some ep, bw) = (r, Some sw, b) \<and> take 3 sw = ''SW_''"
    with pc show ?thesis by auto
  next
    assume "\<exists>s' \<in> set (fst (lan_loop cfg nm)). \<exists>ep' \<in> set (endpoint_names cfg (name' s')).
       (Some (name' s), Some ep, bw) = (Some (name' s'), Some ep', DEFAULT_ENDPOINT_LINK_BW cfg)"
    then show ?thesis by auto
  qed
next
  fix ep
  assume e: "ep \<in> set (endpoint_names cfg (name' s))"
  from lan_loop_links_present [OF assms e] e assms
  show "ep \<in> endpoints_under (name' s) (fst (snd (lan_loop cfg nm))) (snd (snd (lan_loop cfg nm)))"
    by (auto simp: endpoints_under_def list_ex_iff lan_loop_endpoints)
qed

text \<open>
  What the loop does with a subnet depends on the number of its attached interfaces
  (with both address and mask) alone. With exactly one, the result has exactly one
  switch for the subnet, and \<open>ENDPOINTS_PER_LAN\<close> distinct endpoint names are linked
  under that switch's name. With any other number, the result has no switch for it.
\<close>

lemma one_interface_one_switch:
  assumes "infer_access_lans cfg routers = Inr (switches, endpoints, access_links)"
  shows "(length (attached cfg routers k) = 1 \<longrightarrow>
            (\<exists>sw. filter (\<lambda>s. lan_net s = k) switches = [sw] \<and>
                  card (endpoints_under (name' sw) endpoints access_links) =
                    ENDPOINTS_PER_LAN cfg)) \<and>
         (length (attached cfg routers k) \<noteq> 1 \<longrightarrow>
            filter (\<lambda>s. lan_net s = k) switches = [])"
proof -
  from assms obtain nm where nm: "build_net_map cfg routers [] = Inr nm"
    and out: "lan_loop cfg nm = (switches, endpoints, access_links)"
    by (auto simp: infer_access_lans_def split: sum.splits)
  from build_net_map_attached [OF nm] have d: "distinct (map fst nm)"
    and e: "entries nm k = attached cfg routers k"
    by (simp_all add: nm_inv_def)
  have sw: "switches = fst (lan_loop cfg nm)" and ep: "endpoints = fst (snd (lan_loop cfg nm))"
    and al: "access_links = snd (snd (lan_loop cfg nm))"
    using out by simp_all
  note f = lan_loop_switches_for [OF d, of k cfg, unfolded e, folded sw]
  show ?thesis
  proof (intro conjI impI)
    assume one: "length (attached cfg routers k) = 1"
    with f obtain s where s: "filter (\<lambda>s. lan_net s = k) switches = [s]" by simp
    have "s \<in> set (filter (\<lambda>s. lan_net s = k) switches)" unfolding s by simp
    then have "s \<in> set switches" by simp
    then have "s \<in> set (fst (lan_loop cfg nm))" using sw by simp
    from endpoints_under_switch [OF this]
    have "card (endpoints_under (name' s) endpoints access_links) = ENDPOINTS_PER_LAN cfg"
      unfolding ep al by (simp add: endpoint_names_card)
    with s show "\<exists>sw. filter (\<lambda>s. lan_net s = k) switches = [sw] \<and>
        card (endpoints_under (name' sw) endpoints access_links) = ENDPOINTS_PER_LAN cfg"
      by blast
  next
    assume "length (attached cfg routers k) \<noteq> 1"
    with f show "filter (\<lambda>s. lan_net s = k) switches = []" by simp
  qed
qed

lemma parse_two_interfaces_one_subnet:
  "parse_config
     ''hostname R1\<newline>interface Fa0/0\<newline> ip address 10.0.0.1 255.255.255.0\<newline>interface Fa0/1\<newline> ip address 10.0.0.2 255.255.255.0\<newline>'' =
   \<lparr>hostname = Some ''R1'',
    interfaces = [\<lparr>name = ''Fa0/0'', ip = Some ''10.0.0.1'', mask' = Some ''255.255.255.0'',
                   bandwidth = None\<rparr>,
                  \<lparr>name = ''Fa0/1'', ip = Some ''10.0.0.2'', mask' = Some ''255.255.255.0'',
                   bandwidth = None\<rparr>]\<rparr>"
  by code_simp

text \<open>
  Claim C1, at one router with two interfaces on one subnet. The configuration of R1
  puts Fa0/0 and Fa0/1 on 10.0.0.0/24, and R1 is the only router. All interfaces
  attached to that subnet belong to R1, and yet the result has no switch, no endpoint
  and no link: the test \<open>len(attaches) == 1\<close> counts the interfaces on the subnet,
  where its comment says \<open>LAN if only one router has this subnet\<close>.
\<close>

theorem one_router_two_interfaces_no_switch:
  "attached script_config
     [parse_config
        ''hostname R1\<newline>interface Fa0/0\<newline> ip address 10.0.0.1 255.255.255.0\<newline>interface Fa0/1\<newline> ip address 10.0.0.2 255.255.255.0\<newline>'']
     ''10.0.0.0/24'' =
     [(Some ''R1'', ''Fa0/0'', 10000), (Some ''R1'', ''Fa0/1'', 10000)] \<and>
   infer_access_lans script_config
     [parse_config
        ''hostname R1\<newline>interface Fa0/0\<newline> ip address 10.0.0.1 255.255.255.0\<newline>interface Fa0/1\<newline> ip address 10.0.0.2 255.255.255.0\<newline>''] =
     Inr ([], [], [])"
  unfolding parse_two_interfaces_one_subnet by code_simp

text \<open>The two cases of the lemma above, on the specification's end-to-end example.\<close>

lemma example_lans:
  "infer_access_lans script_config example_routers =
   Inr ([\<lparr>name' = ''SW_R1_Fa0_1'', router' = Some ''R1'', lan_net = ''192.168.1.0/24''\<rparr>,
         \<lparr>name' = ''SW_R2_Fa0_1'', router' = Some ''R2'', lan_net = ''192.168.2.0/24''\<rparr>],
        [''PC_SW_R1_Fa0_1_1'', ''PC_SW_R1_Fa0_1_2'', ''PC_SW_R2_Fa0_1_1'', ''PC_SW_R2_Fa0_1_2''],
        [(Some ''R1'', Some ''SW_R1_Fa0_1'', 10000),
         (Some ''SW_R1_Fa0_1'', Some ''PC_SW_R1_Fa0_1_1'', 1000),
         (Some ''SW_R1_Fa0_1'', Some ''PC_SW_R1_Fa0_1_2'', 1000),
         (Some ''R2'', Some ''SW_R2_Fa0_1'', 10000),
         (Some ''SW_R2_Fa0_1'', Some ''PC_SW_R2_Fa0_1_1'', 1000),
         (Some ''SW_R2_Fa0_1'', Some ''PC_SW_R2_Fa0_1_2'', 1000)])"
  by code_simp

lemma example_attached_lan: "length (attached script_config example_routers ''192.168.1.0/24'') = 1"
  by code_simp

lemma example_attached_shared: "length (attached script_config example_routers ''10.0.0.0/30'') = 2"
  by code_simp

lemma one_interface_one_switch_example:
  "length (attached script_config example_routers ''192.168.1.0/24'') = 1 \<and>
   (\<exists>sw. filter (\<lambda>s. lan_net s = ''192.168.1.0/24'')
           [\<lparr>name' = ''SW_R1_Fa0_1'', router' = Some ''R1'', lan_net = ''192.168.1.0/24''\<rparr>,
            \<lparr>name' = ''SW_R2_Fa0_1'', router' = Some ''R2'', lan_net = ''192.168.2.0/24''\<rparr>] = [sw] \<and>
         card (endpoints_under (name' sw)
                 [''PC_SW_R1_Fa0_1_1'', ''PC_SW_R1_Fa0_1_2'', ''PC_SW_R2_Fa0_1_1'',
                  ''PC_SW_R2_Fa0_1_2'']
                 [(Some ''R1'', Some ''SW_R1_Fa0_1'', 10000),
                  (Some ''SW_R1_Fa0_1'', Some ''PC_SW_R1_Fa0_1_1'', 1000),
                  (Some ''SW_R1_Fa0_1'', Some ''PC_SW_R1_Fa0_1_2'', 1000),
                  (Some ''R2'', Some ''SW_R2_Fa0_1'', 10000),
                  (Some ''SW_R2_Fa0_1'', Some ''PC_SW_R2_Fa0_1_1'', 1000),
                  (Some ''SW_R2_Fa0_1'', Some ''PC_SW_R2_Fa0_1_2'', 1000)]) =
           ENDPOINTS_PER_LAN script_config) \<and>
   length (attached script_config example_routers ''10.0.0.0/30'') = 2 \<and>
   filter (\<lambda>s. lan_net s = ''10.0.0.0/30'')
     [\<lparr>name' = ''SW_R1_Fa0_1'', router' = Some ''R1'', lan_net = ''192.168.1.0/24''\<rparr>,
      \<lparr>name' = ''SW_R2_Fa0_1'', router' = Some ''R2'', lan_net = ''192.168.2.0/24''\<rparr>] = []"
  using one_interface_one_switch [OF example_lans, of "''192.168.1.0/24''"]
    one_interface_one_switch [OF example_lans, of "''10.0.0.0/30''"]
    example_attached_lan example_attached_shared
  by simp

section \<open>Properties of the layer assignment\<close>

lemma endpoints_pass:
  "foldl (\<lambda>layer ep. layer(Some ep \<mapsto> 3)) m eps x =
     (if x \<in> Some ` set eps then Some (3::nat) else m x)"
  by (induction eps arbitrary: m) auto

lemma switches_pass:
  "foldl (\<lambda>layer sw. layer(Some (name' sw) \<mapsto> 2)) m sws x =
     (if x \<in> Some ` name' ` set sws then Some (2::nat) else m x)"
  by (induction sws arbitrary: m) auto

lemma auto_assign_layers_at:
  "auto_assign_layers router_links switches endpoints x =
     (if x \<in> Some ` set endpoints then Some 3
      else if x \<in> Some ` name' ` set switches then Some 2
      else router_layers router_links x)"
  by (simp only: auto_assign_layers_def endpoints_pass switches_pass)

lemma fold_max_const: "\<forall>y \<in> set xs. y = x \<Longrightarrow> fold max xs (x::int) = x"
  by (induction xs) auto

lemma fold_min_const: "\<forall>y \<in> set xs. y = x \<Longrightarrow> fold min xs (x::int) = x"
  by (induction xs) auto

lemma equal_pass:
  "foldl (equal_step core) m links x =
     (if m x \<noteq> None then m x
      else if x \<noteq> core \<and> touches links x then Some 1 else None)"
proof (induction links arbitrary: m)
  case Nil
  then show ?case by (simp add: touches_def)
next
  case (Cons l links)
  obtain a b bw where l: "l = (a, b, bw)" by (cases l)
  show ?case
    unfolding foldl_Cons Cons.IH l
    by (auto simp: equal_step_def setdefault_def touches_def Let_def)
qed

lemma router_layers_equal:
  assumes "router_links = (core, b0, bw0) # rest"
    and "list_all (\<lambda>(a, b, bw). bw = bw0) router_links"
  shows "router_layers router_links x =
     (if x = core then Some 0 else if touches router_links x then Some 1 else None)"
proof -
  have all: "\<forall>y \<in> set (map (\<lambda>(a, b, bw). bw) rest). y = bw0"
    using assms by (auto simp: list_all_iff)
  have mm: "py_max (map (\<lambda>(a, b, bw). bw) router_links) = py_min (map (\<lambda>(a, b, bw). bw) router_links)"
    using fold_max_const [OF all] fold_min_const [OF all] assms(1) by simp
  have "router_layers router_links = foldl (equal_step core) (Map.empty(core \<mapsto> 0)) router_links"
    using mm unfolding router_layers_def assms(1) by (simp add: Let_def)
  then show ?thesis by (simp add: equal_pass)
qed

text \<open>
  Claim C5, as amended. When the list of router links is not empty and all its
  bandwidths are equal, the layer of a name is: 3 if it is the name of a given
  endpoint; else 2 if it is the name of a given switch; else 0 for the first router of
  the first link, and 1 for every other router that appears in a link. So the first
  router is Core and the others Distribution whenever their names are not names of
  switches or endpoints as well.
\<close>

theorem equal_bandwidths_layers:
  assumes "router_links = (core, b0, bw0) # rest"
    and "list_all (\<lambda>(a, b, bw). bw = bw0) router_links"
  shows "auto_assign_layers router_links switches endpoints x =
     (if x \<in> Some ` set endpoints then Some 3
      else if x \<in> Some ` name' ` set switches then Some 2
      else if x = core then Some 0
      else if touches router_links x then Some 1
      else None)"
  by (simp add: auto_assign_layers_at router_layers_equal [OF assms])


text \<open>
  The claim as first stated fails where a router is named as a switch is. The first
  router's hostname is \<open>SW_R2_Fa0_1\<close>, which is also the name of the switch inferred
  for the LAN on interface Fa0/1 of R2. The only router link starts at that router, so
  it is made Core; the loop over the switches then overwrites its layer with 2.
\<close>

lemma parse_switch_named_router:
  "parse_config
     ''hostname SW_R2_Fa0_1\<newline>interface Fa0/0\<newline> ip address 10.0.0.1 255.255.255.252\<newline>'' =
   \<lparr>hostname = Some ''SW_R2_Fa0_1'',
    interfaces = [\<lparr>name = ''Fa0/0'', ip = Some ''10.0.0.1'', mask' = Some ''255.255.255.252'',
                   bandwidth = None\<rparr>]\<rparr>"
  by code_simp

theorem first_router_named_as_switch:
  "find_router_links script_config
     [\<lparr>hostname = Some ''SW_R2_Fa0_1'',
       interfaces = [\<lparr>name = ''Fa0/0'', ip = Some ''10.0.0.1'', mask' = Some ''255.255.255.252'',
                      bandwidth = None\<rparr>]\<rparr>,
      \<lparr>hostname = Some ''R2'',
       interfaces = [\<lparr>name = ''Fa0/0'', ip = Some ''10.0.0.2'', mask' = Some ''255.255.255.252'',
                      bandwidth = None\<rparr>,
                     \<lparr>name = ''Fa0/1'', ip = Some ''192.168.1.1'', mask' = Some ''255.255.255.0'',
                      bandwidth = None\<rparr>]\<rparr>] =
     Inr [(Some ''SW_R2_Fa0_1'', Some ''R2'', 10000)] \<and>
   infer_access_lans script_config
     [\<lparr>hostname = Some ''SW_R2_Fa0_1'',
       interfaces = [\<lparr>name = ''Fa0/0'', ip = Some ''10.0.0.1'', mask' = Some ''255.255.255.252'',
                      bandwidth = None\<rparr>]\<rparr>,
      \<lparr>hostname = Some ''R2'',
       interfaces = [\<lparr>name = ''Fa0/0'', ip = Some ''10.0.0.2'', mask' = Some ''255.255.255.252'',
                      bandwidth = None\<rparr>,
                     \<lparr>name = ''Fa0/1'', ip = Some ''192.168.1.1'', mask' = Some ''255.255.255.0'',
                      bandwidth = None\<rparr>]\<rparr>] =
     Inr ([\<lparr>name' = ''SW_R2_Fa0_1'', router' = Some ''R2'', lan_net = ''192.168.1.0/24''\<rparr>],
          [''PC_SW_R2_Fa0_1_1'', ''PC_SW_R2_Fa0_1_2''],
          [(Some ''R2'', Some ''SW_R2_Fa0_1'', 10000),
           (Some ''SW_R2_Fa0_1'', Some ''PC_SW_R2_Fa0_1_1'', 1000),
           (Some ''SW_R2_Fa0_1'', Some ''PC_SW_R2_Fa0_1_2'', 1000)]) \<and>
   auto_assign_layers [(Some ''SW_R2_Fa0_1'', Some ''R2'', 10000)]
     [\<lparr>name' = ''SW_R2_Fa0_1'', router' = Some ''R2'', lan_net = ''192.168.1.0/24''\<rparr>]
     [''PC_SW_R2_Fa0_1_1'', ''PC_SW_R2_Fa0_1_2''] (Some ''SW_R2_Fa0_1'') = Some 2"
  by code_simp

theorem equal_bandwidths_layers_witness:
  "list_all (\<lambda>(a, b, bw). bw = 10000) [(Some ''R1'', Some ''R2'', 10000 :: int)] \<and>
   auto_assign_layers [(Some ''R1'', Some ''R2'', 10000)]
     [\<lparr>name' = ''SW_R1_Fa0_1'', router' = Some ''R1'', lan_net = ''192.168.1.0/24''\<rparr>,
      \<lparr>name' = ''SW_R2_Fa0_1'', router' = Some ''R2'', lan_net = ''192.168.2.0/24''\<rparr>]
     [''PC_SW_R1_Fa0_1_1'', ''PC_SW_R1_Fa0_1_2'', ''PC_SW_R2_Fa0_1_1'', ''PC_SW_R2_Fa0_1_2'']
     (Some ''R1'') = Some 0 \<and>
   auto_assign_layers [(Some ''R1'', Some ''R2'', 10000)]
     [\<lparr>name' = ''SW_R1_Fa0_1'', router' = Some ''R1'', lan_net = ''192.168.1.0/24''\<rparr>,
      \<lparr>name' = ''SW_R2_Fa0_1'', router' = Some ''R2'', lan_net = ''192.168.2.0/24''\<rparr>]
     [''PC_SW_R1_Fa0_1_1'', ''PC_SW_R1_Fa0_1_2'', ''PC_SW_R2_Fa0_1_1'', ''PC_SW_R2_Fa0_1_2'']
     (Some ''R2'') = Some 1"
  using equal_bandwidths_layers [of "[(Some ''R1'', Some ''R2'', 10000)]" "Some ''R1''" "Some ''R2''"
      10000 "[]"
      "[\<lparr>name' = ''SW_R1_Fa0_1'', router' = Some ''R1'', lan_net = ''192.168.1.0/24''\<rparr>,
        \<lparr>name' = ''SW_R2_Fa0_1'', router' = Some ''R2'', lan_net = ''192.168.2.0/24''\<rparr>]"
      "[''PC_SW_R1_Fa0_1_1'', ''PC_SW_R1_Fa0_1_2'', ''PC_SW_R2_Fa0_1_1'', ''PC_SW_R2_Fa0_1_2'']"
      "Some ''R1''"]
    equal_bandwidths_layers [of "[(Some ''R1'', Some ''R2'', 10000)]" "Some ''R1''" "Some ''R2''"
      10000 "[]"
      "[\<lparr>name' = ''SW_R1_Fa0_1'', router' = Some ''R1'', lan_net = ''192.168.1.0/24''\<rparr>,
        \<lparr>name' = ''SW_R2_Fa0_1'', router' = Some ''R2'', lan_net = ''192.168.2.0/24''\<rparr>]"
      "[''PC_SW_R1_Fa0_1_1'', ''PC_SW_R1_Fa0_1_2'', ''PC_SW_R2_Fa0_1_1'', ''PC_SW_R2_Fa0_1_2'']"
      "Some ''R2''"]
  by (simp add: touches_def)

text \<open>
  Claim C3, on a chain A - B - C - D whose first link is the fastest. A and B are
  Core. C is linked to B and becomes Distribution. D is linked to C only, so to no
  Core router, and becomes Distribution as well: the test \<open>b in layer\<close> holds for a
  router that the same loop has just put in layer 1.
\<close>

theorem chain_end_becomes_distribution:
  "map (auto_assign_layers
          [(Some ''A'', Some ''B'', 10000), (Some ''B'', Some ''C'', 5000),
           (Some ''C'', Some ''D'', 5000)] [] [])
     [Some ''A'', Some ''B'', Some ''C'', Some ''D''] =
   [Some 0, Some 0, Some 1, Some 1]"
  by code_simp

text \<open>With the same links listed in the opposite order, D falls to layer 2.\<close>

lemma chain_end_other_order:
  "map (auto_assign_layers
          [(Some ''C'', Some ''D'', 5000), (Some ''B'', Some ''C'', 5000),
           (Some ''A'', Some ''B'', 10000)] [] [])
     [Some ''A'', Some ''B'', Some ''C'', Some ''D''] =
   [Some 0, Some 0, Some 1, Some 2]"
  by code_simp

section \<open>Properties of the load annotation\<close>

text \<open>
  Claim C4. Every link in the output of \<open>annotate_links_with_load\<close> is flagged
  overloaded exactly when its bandwidth is above 0 and its load is above its
  bandwidth; so a link of bandwidth 0 is never flagged.
\<close>

theorem overload_flag_iff:
  "annotate_links_with_load cfg rs links is_access g = Inr (out, g') \<Longrightarrow>
   (a, b, bw, load, ov, app) \<in> set out \<Longrightarrow> ov = (bw > 0 \<and> load > bw)"
proof (induction links arbitrary: g out)
  case Nil
  then show ?case by simp
next
  case (Cons l links)
  obtain a0 b0 bw0 where l: "l = (a0, b0, bw0)" by (cases l)
  from Cons.prems(1) l obtain app0 g1 load0 g2 out' where
    "annotate_links_with_load cfg rs links is_access g2 = Inr (out', g')"
    and out: "out = (a0, b0, bw0, load0, bw0 > 0 \<and> load0 > bw0, app0) # out'"
    by (auto split: sum.splits prod.splits)
  with Cons.IH Cons.prems(2) show ?case by auto
qed

lemma annotate_run_5:
  "annotate_links_with_load script_config counter_source
     [(Some ''R1'', Some ''R2'', 0), (Some ''R1'', Some ''R3'', 500)] False 5 =
   Inr ([(Some ''R1'', Some ''R2'', 0, 8000, False, Some ''Video Streaming''),
         (Some ''R1'', Some ''R3'', 500, 512, True, Some ''VoIP'')], 7)"
  by code_simp

theorem overload_flag_iff_witness:
  "annotate_links_with_load script_config counter_source
     [(Some ''R1'', Some ''R2'', 0), (Some ''R1'', Some ''R3'', 500)] False 5 =
   Inr ([(Some ''R1'', Some ''R2'', 0, 8000, False, Some ''Video Streaming''),
         (Some ''R1'', Some ''R3'', 500, 512, True, Some ''VoIP'')], 7) \<and>
   False = ((0::int) > 0 \<and> (8000::int) > 0) \<and>
   True = ((500::int) > 0 \<and> (512::int) > 500)"
  using overload_flag_iff [OF annotate_run_5,
      of "Some ''R1''" "Some ''R2''" 0 8000 False "Some ''Video Streaming''"]
    overload_flag_iff [OF annotate_run_5,
      of "Some ''R1''" "Some ''R3''" 500 512 True "Some ''VoIP''"]
    annotate_run_5
  by simp

text \<open>
  Claim C6. Under the policy \<open>"fixed"\<close> the annotation never raises and never draws:
  it returns the links in order, each with the load \<open>FIXED_LOAD\<close> and with no
  application label (\<open>None\<close>).
\<close>

theorem fixed_policy_load:
  "LOAD_MODE cfg = ''fixed'' \<Longrightarrow>
   annotate_links_with_load cfg rs links is_access g =
     Inr (map (\<lambda>(a, b, bw). (a, b, bw, FIXED_LOAD cfg, bw > 0 \<and> FIXED_LOAD cfg > bw, None))
            links, g)"
  by (induction links arbitrary: g) (auto simp: pick_app_def compute_load_def)

theorem fixed_policy_load_witness:
  "LOAD_MODE (script_config\<lparr>LOAD_MODE := ''fixed''\<rparr>) = ''fixed'' \<and>
   annotate_links_with_load (script_config\<lparr>LOAD_MODE := ''fixed''\<rparr>) counter_source
     [(Some ''R1'', Some ''R2'', 10000), (Some ''SW_R1_Fa0_1'', Some ''PC_SW_R1_Fa0_1_1'', 1000)]
     True 3 =
   Inr ([(Some ''R1'', Some ''R2'', 10000, 8000, False, None),
         (Some ''SW_R1_Fa0_1'', Some ''PC_SW_R1_Fa0_1_1'', 1000, 8000, True, None)], 3)"
  using fixed_policy_load [of "script_config\<lparr>LOAD_MODE := ''fixed''\<rparr>" counter_source
      "[(Some ''R1'', Some ''R2'', 10000),
        (Some ''SW_R1_Fa0_1'', Some ''PC_SW_R1_Fa0_1_1'', 1000)]" True 3]
  by (simp add: script_config_def)

text \<open>
  Claim C8. With a seed set, the loads and flags of a run do not depend on the state
  the generator was in when the run began: two runs over the same router links and
  access links, with the same configuration, give the same annotated lists.
\<close>

theorem same_seed_same_loads:
  "RANDOM_SEED cfg = Some n \<Longrightarrow>
   main_loads cfg rs g1 rtr_links access_links = main_loads cfg rs g2 rtr_links access_links"
  by (simp add: main_loads_def)

lemma main_loads_seed_5:
  "main_loads (script_config\<lparr>RANDOM_SEED := Some 5\<rparr>) counter_source 0
     [(Some ''R1'', Some ''R2'', 10000)] [(Some ''R1'', Some ''SW_R1_Fa0_1'', 100)] =
   Inr ([(Some ''R1'', Some ''R2'', 10000, 8000, False, Some ''Video Streaming'')],
        [(Some ''R1'', Some ''SW_R1_Fa0_1'', 100, 512, True, Some ''VoIP'')])"
  by code_simp

theorem same_seed_same_loads_witness:
  "RANDOM_SEED (script_config\<lparr>RANDOM_SEED := Some 5\<rparr>) = Some 5 \<and>
   main_loads (script_config\<lparr>RANDOM_SEED := Some 5\<rparr>) counter_source 1
     [(Some ''R1'', Some ''R2'', 10000)] [(Some ''R1'', Some ''SW_R1_Fa0_1'', 100)] =
   Inr ([(Some ''R1'', Some ''R2'', 10000, 8000, False, Some ''Video Streaming'')],
        [(Some ''R1'', Some ''SW_R1_Fa0_1'', 100, 512, True, Some ''VoIP'')])"
  using same_seed_same_loads [of "script_config\<lparr>RANDOM_SEED := Some 5\<rparr>" 5 counter_source 1
      "[(Some ''R1'', Some ''R2'', 10000)]" "[(Some ''R1'', Some ''SW_R1_Fa0_1'', 100)]" 0]
    main_loads_seed_5
  by simp

text \<open>Without a seed the state the run began in shows in the result.\<close>

lemma no_seed_loads_differ:
  "main_loads script_config counter_source 0 [(Some ''R1'', Some ''R2'', 10000)] [] \<noteq>
   main_loads script_config counter_source 5 [(Some ''R1'', Some ''R2'', 10000)] []"
  by code_simp

text \<open>
  Claim C10. \<open>compute_load\<close> does not read its bandwidth argument, and so the loads
  do not depend on the bandwidths: two lists of links that differ only in the
  bandwidths, annotated from the same state of the generator, get the same loads and
  applications, leave the generator in the same state, and raise alike.
\<close>

lemma compute_load_ignores_bw:
  "compute_load cfg rs bw app g = compute_load cfg rs bw' app g"
  by (simp add: compute_load_def)

theorem load_independent_of_bandwidth:
  "map (\<lambda>(a, b, bw). (a, b)) ls1 = map (\<lambda>(a, b, bw). (a, b)) ls2 \<Longrightarrow>
   map_sum id (map_prod (map load_view) id) (annotate_links_with_load cfg rs ls1 is_access g) =
   map_sum id (map_prod (map load_view) id) (annotate_links_with_load cfg rs ls2 is_access g)"
proof (induction ls1 arbitrary: ls2 g)
  case Nil
  then show ?case by simp
next
  case (Cons l ls1)
  from Cons.prems obtain l' ls2' where ls2: "ls2 = l' # ls2'" by (cases ls2) auto
  obtain a b bw where l: "l = (a, b, bw)" by (cases l)
  obtain a' b' bw' where l': "l' = (a', b', bw')" by (cases l')
  from Cons.prems ls2 l l' have ab: "a' = a" "b' = b"
    and rest: "map (\<lambda>(a, b, bw). (a, b)) ls1 = map (\<lambda>(a, b, bw). (a, b)) ls2'"
    by auto
  note IH = Cons.IH [OF rest]
  show ?case
  proof (cases "pick_app cfg rs is_access g")
    case (Inl e)
    then show ?thesis unfolding ls2 l l' by simp
  next
    case (Inr p)
    obtain app g1 where p: "p = (app, g1)" by (cases p)
    have same: "compute_load cfg rs bw' app g1 = compute_load cfg rs bw app g1"
      by (rule compute_load_ignores_bw)
    show ?thesis
    proof (cases "compute_load cfg rs bw app g1")
      case (Inl e)
      with Inr p same show ?thesis unfolding ls2 l l' by simp
    next
      case Inr2: (Inr q)
      obtain load g2 where q: "q = (load, g2)" by (cases q)
      show ?thesis
        using IH [of g2] Inr p Inr2 q same unfolding ls2 l l' ab
        by (cases "annotate_links_with_load cfg rs ls1 is_access g2";
            cases "annotate_links_with_load cfg rs ls2' is_access g2")
           (auto simp: load_view_def)
    qed
  qed
qed

lemma annotate_run_5_other_bw:
  "annotate_links_with_load script_config counter_source
     [(Some ''R1'', Some ''R2'', 9000), (Some ''R1'', Some ''R3'', 600)] False 5 =
   Inr ([(Some ''R1'', Some ''R2'', 9000, 8000, False, Some ''Video Streaming''),
         (Some ''R1'', Some ''R3'', 600, 512, False, Some ''VoIP'')], 7)"
  by code_simp

theorem load_independent_of_bandwidth_witness:
  "map (\<lambda>(a, b, bw). (a, b)) [(Some ''R1'', Some ''R2'', 0 :: int), (Some ''R1'', Some ''R3'', 500)] =
   map (\<lambda>(a, b, bw). (a, b)) [(Some ''R1'', Some ''R2'', 9000 :: int), (Some ''R1'', Some ''R3'', 600)] \<and>
   map_sum id (map_prod (map load_view) id)
     (annotate_links_with_load script_config counter_source
        [(Some ''R1'', Some ''R2'', 0), (Some ''R1'', Some ''R3'', 500)] False 5) =
   Inr ([(Some ''R1'', Some ''R2'', 8000, Some ''Video Streaming''),
         (Some ''R1'', Some ''R3'', 512, Some ''VoIP'')], 7)"
  using load_independent_of_bandwidth [of
      "[(Some ''R1'', Some ''R2'', 0), (Some ''R1'', Some ''R3'', 500)]"
      "[(Some ''R1'', Some ''R2'', 9000), (Some ''R1'', Some ''R3'', 600)]"
      script_config counter_source False 5]
    annotate_run_5_other_bw
  by (simp add: load_view_def)

end
